theory Spec2Isabelle
  imports Complex_Main
begin

section \<open>Values, arrays and errors\<close>

text \<open>
  The module \<^verbatim>\<open>holography/quantum_artifacts.py\<close> is a flat set of array formulas
  written against \<^verbatim>\<open>jax.numpy\<close>. The embedding below fixes the following reading.

  \<^item> An array is given by its rows along the last axis, all leading axes flattened:
    a one-dimensional array of \<open>n\<close> numbers is the single row \<open>[[x\<^sub>0, \<dots>, x\<^sub>n\<^sub>-\<^sub>1]]\<close>,
    an array of shape \<open>(m, n)\<close> is \<open>m\<close> rows of length \<open>n\<close>. The Fourier
    transforms act on each row, elementwise operations on each element, and
    \<^verbatim>\<open>jnp.sum\<close> on all elements. \<^verbatim>\<open>jnp.gradient\<close> depends on the number of
    axes, so the density field of \<^verbatim>\<open>compute_mqp\<close> is a one-dimensional array, a list.
  \<^item> Input numbers are finite, and a finite result of an operation is the exact real
    or complex number: rounding is not modelled.
  \<^item> A floating point operation that leaves the finite numbers does not raise in
    the array library: it yields an infinity or a NaN. \<^verbatim>\<open>compute_mqp\<close> and
    \<^verbatim>\<open>compute_bohmian_velocity\<close> divide by input numbers only, and every operation
    they apply to a non-finite value gives a non-finite value again; there a value is
    \<open>Some r\<close> for a finite \<open>r\<close> and \<open>None\<close> for an infinity or a NaN.
  \<^item> \<^verbatim>\<open>compute_entanglement_entropy\<close> divides by a sum it has computed, and a
    finite number divided by an infinity is zero. Its values are the IEEE values
    of the type \<open>ieee\<close> below, over a floating point format.
  \<^item> A Python exception is a value \<open>Inl e\<close> of a sum type.
\<close>

datatype error = TypeError | ValueError

type_synonym fval = "real option"

definition fdiv :: "real \<Rightarrow> real \<Rightarrow> fval" where
  "fdiv x y = (if y = 0 then None else Some (x / y))"

definition fneg :: "fval \<Rightarrow> fval" where
  "fneg x = (case x of None \<Rightarrow> None | Some r \<Rightarrow> Some (- r))"

definition fmul :: "fval \<Rightarrow> fval \<Rightarrow> fval" where
  "fmul x y = (case x of None \<Rightarrow> None
               | Some r \<Rightarrow> (case y of None \<Rightarrow> None | Some s \<Rightarrow> Some (r * s)))"

subsection \<open>IEEE values over a floating point format\<close>

text \<open>
  A format is given by its largest finite number and its smallest positive number.
  \<open>float32\<close>, the default of the array library, has the largest number
  \<open>(2 - 2\<^sup>-\<^sup>2\<^sup>3) * 2\<^sup>1\<^sup>2\<^sup>7\<close>; its smallest positive number is the smallest
  normal number \<open>2\<^sup>-\<^sup>1\<^sup>2\<^sup>6\<close> where the library flushes subnormal numbers to zero, and
  the smallest subnormal number \<open>2\<^sup>-\<^sup>1\<^sup>4\<^sup>9\<close> where it does not. The source fixes
  neither the format nor that convention, so the functions take the format as an
  argument and the theorems hold for every format.

  A result beyond the largest finite number is an infinity (\<open>overflow\<close>). A square
  below the smallest positive number is zero: this underflow can turn a power
  spectrum that is not zero into zero. Any other result that underflows differs from
  the exact one by less than the smallest positive number and is left exact, as
  rounding is. Zero has no sign: the one division divides by a sum of squares, which
  is never the negative zero. The Fourier transform of finite input is taken exactly.
\<close>

datatype ieee = Finite real | PosInf | NegInf | NaN

record float_format =
  largest :: real
  smallest :: real

definition float32 :: "bool \<Rightarrow> float_format" where
  "float32 flush_subnormals =
     \<lparr>largest = (2 - 1 / 2 ^ 23) * 2 ^ 127,
      smallest = (if flush_subnormals then 1 / 2 ^ 126 else 1 / 2 ^ 149)\<rparr>"

definition overflow :: "float_format \<Rightarrow> real \<Rightarrow> ieee" where
  "overflow F x = (if largest F < x then PosInf else if x < - largest F then NegInf else Finite x)"

definition ieee_abs :: "float_format \<Rightarrow> complex \<Rightarrow> ieee" where
  "ieee_abs F z = overflow F (cmod z)"

fun ieee_square :: "float_format \<Rightarrow> ieee \<Rightarrow> ieee" where
  "ieee_square F (Finite a) =
     (if largest F < a * a then PosInf else if a * a < smallest F then Finite 0 else Finite (a * a))"
| "ieee_square F PosInf = PosInf"
| "ieee_square F NegInf = PosInf"
| "ieee_square F NaN = NaN"

fun ieee_neg :: "ieee \<Rightarrow> ieee" where
  "ieee_neg (Finite a) = Finite (- a)"
| "ieee_neg PosInf = NegInf"
| "ieee_neg NegInf = PosInf"
| "ieee_neg NaN = NaN"

fun ieee_add :: "float_format \<Rightarrow> ieee \<Rightarrow> ieee \<Rightarrow> ieee" where
  "ieee_add F (Finite a) (Finite b) = overflow F (a + b)"
| "ieee_add F NaN y = NaN"
| "ieee_add F x NaN = NaN"
| "ieee_add F PosInf NegInf = NaN"
| "ieee_add F NegInf PosInf = NaN"
| "ieee_add F PosInf y = PosInf"
| "ieee_add F x PosInf = PosInf"
| "ieee_add F NegInf y = NegInf"
| "ieee_add F x NegInf = NegInf"

fun ieee_mul :: "float_format \<Rightarrow> ieee \<Rightarrow> ieee \<Rightarrow> ieee" where
  "ieee_mul F (Finite a) (Finite b) = overflow F (a * b)"
| "ieee_mul F NaN y = NaN"
| "ieee_mul F x NaN = NaN"
| "ieee_mul F (Finite a) PosInf = (if a = 0 then NaN else if 0 < a then PosInf else NegInf)"
| "ieee_mul F (Finite a) NegInf = (if a = 0 then NaN else if 0 < a then NegInf else PosInf)"
| "ieee_mul F PosInf (Finite b) = (if b = 0 then NaN else if 0 < b then PosInf else NegInf)"
| "ieee_mul F NegInf (Finite b) = (if b = 0 then NaN else if 0 < b then NegInf else PosInf)"
| "ieee_mul F PosInf PosInf = PosInf"
| "ieee_mul F NegInf NegInf = PosInf"
| "ieee_mul F PosInf NegInf = NegInf"
| "ieee_mul F NegInf PosInf = NegInf"

fun ieee_div :: "float_format \<Rightarrow> ieee \<Rightarrow> ieee \<Rightarrow> ieee" where
  "ieee_div F (Finite a) (Finite b) =
     (if b = 0 then (if a = 0 then NaN else if 0 < a then PosInf else NegInf)
      else overflow F (a / b))"
| "ieee_div F NaN y = NaN"
| "ieee_div F x NaN = NaN"
| "ieee_div F (Finite a) PosInf = Finite 0"
| "ieee_div F (Finite a) NegInf = Finite 0"
| "ieee_div F PosInf (Finite b) = (if 0 \<le> b then PosInf else NegInf)"
| "ieee_div F NegInf (Finite b) = (if 0 \<le> b then NegInf else PosInf)"
| "ieee_div F PosInf PosInf = NaN"
| "ieee_div F PosInf NegInf = NaN"
| "ieee_div F NegInf PosInf = NaN"
| "ieee_div F NegInf NegInf = NaN"

fun ieee_log :: "float_format \<Rightarrow> ieee \<Rightarrow> ieee" where
  "ieee_log F (Finite a) = (if 0 < a then overflow F (ln a) else if a = 0 then NegInf else NaN)"
| "ieee_log F PosInf = PosInf"
| "ieee_log F NegInf = NaN"
| "ieee_log F NaN = NaN"

definition ieee_sum :: "float_format \<Rightarrow> ieee list \<Rightarrow> ieee" where
  "ieee_sum F xs = foldr (ieee_add F) xs (Finite 0)"

fun is_finite :: "ieee \<Rightarrow> bool" where
  "is_finite (Finite a) = True"
| "is_finite PosInf = False"
| "is_finite NegInf = False"
| "is_finite NaN = False"

section \<open>Library primitives\<close>

subsection \<open>Discrete Fourier transforms\<close>

text \<open>
  \<^verbatim>\<open>jnp.fft.fft\<close> and \<^verbatim>\<open>jnp.fft.ifft\<close> with their default arguments: the
  discrete Fourier transform along the last axis and its inverse, the inverse
  carrying the factor \<open>1 / n\<close>.
\<close>

definition dft :: "complex list \<Rightarrow> complex list" where
  "dft a = (let n = length a
            in map (\<lambda>k. \<Sum>j<n. a ! j * cis (- (2 * pi * real j * real k / real n))) [0..<n])"

definition idft :: "complex list \<Rightarrow> complex list" where
  "idft a = (let n = length a
             in map (\<lambda>m. (\<Sum>k<n. a ! k * cis (2 * pi * real m * real k / real n)) / of_nat n)
                  [0..<n])"

definition fft :: "complex list list \<Rightarrow> complex list list" where
  "fft a = map dft a"

definition ifft :: "complex list list \<Rightarrow> complex list list" where
  "ifft a = map idft a"

subsection \<open>Discrete gradient\<close>

text \<open>
  \<^verbatim>\<open>jnp.gradient\<close> of a one-dimensional array with unit spacing: one-sided
  differences at the two ends, central differences times \<open>0.5\<close> inside. The
  library raises \<^verbatim>\<open>ValueError\<close> for an axis of fewer than two elements.
\<close>

definition gradient :: "real list \<Rightarrow> error + real list" where
  "gradient a =
     (let n = length a
      in if n < 2 then Inl ValueError
         else Inr ([a ! 1 - a ! 0]
                   @ map2 (\<lambda>u l. (u - l) * (1 / 2)) (drop 2 a) (take (n - 2) a)
                   @ [a ! (n - 1) - a ! (n - 2)]))"

subsection \<open>Automatic differentiation and random numbers\<close>

text \<open>
  \<^verbatim>\<open>jax.grad\<close> takes a Python callable and returns a callable; given anything
  else it raises \<^verbatim>\<open>TypeError\<close>. The derivative it builds for a callable is the
  parameter \<open>autodiff\<close>. A Python value here is an array or a function object,
  and a float times a function object raises \<^verbatim>\<open>TypeError\<close>.
\<close>

datatype pyval =
    Array "complex list list"
  | Callable "real list \<Rightarrow> real"
  | GradCallable "real list \<Rightarrow> real list"

definition jax_grad :: "((real list \<Rightarrow> real) \<Rightarrow> real list \<Rightarrow> real list) \<Rightarrow> pyval \<Rightarrow> error + pyval" where
  "jax_grad autodiff fun =
     (case fun of
        Callable f \<Rightarrow> Inr (GradCallable (autodiff f))
      | Array a \<Rightarrow> Inl TypeError
      | GradCallable g \<Rightarrow> Inl TypeError)"

definition scalar_mul :: "fval \<Rightarrow> pyval \<Rightarrow> error + complex option list list" where
  "scalar_mul c v =
     (case v of
        Array a \<Rightarrow> Inr (map (map (\<lambda>z. map_option (\<lambda>r. of_real r * z) c)) a)
      | Callable f \<Rightarrow> Inl TypeError
      | GradCallable g \<Rightarrow> Inl TypeError)"

text \<open>
  \<^verbatim>\<open>jax.random.normal(key, shape=(), dtype=float)\<close>: a call binds its keyword
  arguments to these three parameters. Python raises \<^verbatim>\<open>TypeError\<close> for a
  keyword that names no parameter and for a missing \<^verbatim>\<open>key\<close>. The samples
  drawn for a key and a shape are the parameter \<open>sampler\<close>; a shape is the list
  of row lengths.
\<close>

datatype pyarg = KeyArg nat | ShapeArg "nat list" | DtypeArg

definition jax_random_normal ::
  "(nat \<Rightarrow> nat list \<Rightarrow> real list list) \<Rightarrow> (string \<times> pyarg) list \<Rightarrow> error + real list list" where
  "jax_random_normal sampler kwargs =
     (if \<exists>kw \<in> set (map fst kwargs). kw \<notin> {''key'', ''shape'', ''dtype''}
      then Inl TypeError
      else (case map_of kwargs ''key'' of
              Some (KeyArg k) \<Rightarrow>
                (case map_of kwargs ''shape'' of
                   None \<Rightarrow> Inr (sampler k [])
                 | Some (ShapeArg s) \<Rightarrow> Inr (sampler k s)
                 | Some _ \<Rightarrow> Inl TypeError)
            | _ \<Rightarrow> Inl TypeError))"

definition shape :: "'a list list \<Rightarrow> nat list" where
  "shape a = map length a"

section \<open>The module\<close>

text \<open>\<^verbatim>\<open>return jnp.abs(jnp.fft.ifft(phase_field)) ** 2\<close>\<close>

definition compute_quantum_foam :: "complex list list \<Rightarrow> real list list" where
  "compute_quantum_foam phase_field = map (map (\<lambda>z. (cmod z)\<^sup>2)) (ifft phase_field)"

text \<open>
  \<^verbatim>\<open>gradient_phase = grad(phase_field)\<close>, then
  \<^verbatim>\<open>velocity = (hbar / mass) * gradient_phase\<close>; \<^verbatim>\<open>grad\<close> is \<^verbatim>\<open>jax.grad\<close>.
\<close>

definition compute_bohmian_velocity ::
  "((real list \<Rightarrow> real) \<Rightarrow> real list \<Rightarrow> real list) \<Rightarrow> complex list list \<Rightarrow> real \<Rightarrow> real
     \<Rightarrow> error + complex option list list" where
  "compute_bohmian_velocity autodiff phase_field mass hbar =
     (case jax_grad autodiff (Array phase_field) of
        Inl e \<Rightarrow> Inl e
      | Inr gradient_phase \<Rightarrow> scalar_mul (fdiv hbar mass) gradient_phase)"

text \<open>
  \<^verbatim>\<open>laplacian = jnp.gradient(jnp.gradient(density_field))\<close>, then
  \<^verbatim>\<open>quantum_potential = - (hbar**2 / (2 * mass)) * (laplacian / density_field)\<close>.
\<close>

definition compute_mqp :: "real list \<Rightarrow> real \<Rightarrow> real \<Rightarrow> error + fval list" where
  "compute_mqp density_field hbar mass =
     (case gradient density_field of
        Inl e \<Rightarrow> Inl e
      | Inr g \<Rightarrow>
          (case gradient g of
             Inl e \<Rightarrow> Inl e
           | Inr laplacian \<Rightarrow>
               Inr (map2 (\<lambda>l d. fmul (fneg (fdiv (hbar\<^sup>2) (2 * mass))) (fdiv l d))
                      laplacian density_field)))"

text \<open>
  \<^verbatim>\<open>spectral_density = jnp.abs(jnp.fft.fft(phase_field)) ** 2\<close>,
  \<^verbatim>\<open>probability_distribution = spectral_density / jnp.sum(spectral_density)\<close>,
  \<^verbatim>\<open>entropy = -jnp.sum(probability_distribution * jnp.log(probability_distribution + 1e-10))\<close>.
  The format \<open>F\<close> is that of the arrays; the source does not fix it.
\<close>

definition spectral_density :: "float_format \<Rightarrow> complex list list \<Rightarrow> ieee list list" where
  "spectral_density F phase_field = map (map (\<lambda>z. ieee_square F (ieee_abs F z))) (fft phase_field)"

definition probability_distribution :: "float_format \<Rightarrow> complex list list \<Rightarrow> ieee list list" where
  "probability_distribution F phase_field =
     (let sd = spectral_density F phase_field
      in map (map (\<lambda>s. ieee_div F s (ieee_sum F (concat sd)))) sd)"

definition compute_entanglement_entropy :: "float_format \<Rightarrow> complex list list \<Rightarrow> ieee" where
  "compute_entanglement_entropy F phase_field =
     ieee_neg (ieee_sum F (concat
       (map (map (\<lambda>p. ieee_mul F p (ieee_log F (ieee_add F p (Finite (1 / 10 ^ 10))))))
          (probability_distribution F phase_field))))"

text \<open>
  \<^verbatim>\<open>noise = jax.random.normal(size=phase_field.shape) * decoherence_rate\<close>, then
  \<^verbatim>\<open>return phase_field + noise\<close>.
\<close>

definition holographic_decoherence ::
  "(nat \<Rightarrow> nat list \<Rightarrow> real list list) \<Rightarrow> complex list list \<Rightarrow> real \<Rightarrow> error + complex list list" where
  "holographic_decoherence sampler phase_field decoherence_rate =
     (case jax_random_normal sampler [(''size'', ShapeArg (shape phase_field))] of
        Inl e \<Rightarrow> Inl e
      | Inr normal \<Rightarrow>
          (let noise = map (map (\<lambda>x. x * decoherence_rate)) normal
           in Inr (map2 (map2 (\<lambda>z x. z + of_real x)) phase_field noise)))"

section \<open>The formulas of the specification\<close>

text \<open>
  The specification names the quantities below in its own words. They are written
  here over the real numbers, next to the code, for the comparison with it.

  The power spectrum is \<open>|fft(phase_field)|\<^sup>2\<close> and the normalized power spectrum is
  \<open>p = |fft(phase_field)|\<^sup>2 / sum(|fft(phase_field)|\<^sup>2)\<close>, both flattened to one list.
  The Shannon entropy of a distribution is \<open>- \<Sum> p log p\<close> with the convention
  \<open>0 log 0 = 0\<close>. \<open>entropy_formula\<close> is the expression \<^verbatim>\<open>-sum(p * log(p))\<close>
  evaluated as the array library would evaluate it on the code's own \<open>p\<close>, where
  \<open>log 0\<close> is the negative infinity. \<open>scale c\<close> is the array
  \<^verbatim>\<open>c * phase_field\<close> for a real scalar \<open>c\<close>. The squared modulus of a complex
  number is the sum of the squares of its real and imaginary parts.

  A phase field is in the range of a format when no entry of its power spectrum
  underflows and the sum of the power spectrum does not overflow, each with a factor
  of two to spare for the rounding that is not modelled: an entry is zero or at least
  twice the smallest positive number, and twice the sum is at most the largest
  number. The formats considered have a positive smallest number and a largest
  number of at least \<open>100\<close>.
\<close>

definition power_spectrum :: "complex list list \<Rightarrow> real list" where
  "power_spectrum phase_field = concat (map (map (\<lambda>z. (cmod z)\<^sup>2)) (fft phase_field))"

definition normalized_power_spectrum :: "complex list list \<Rightarrow> real list" where
  "normalized_power_spectrum phase_field =
     (let s = power_spectrum phase_field in map (\<lambda>x. x / sum_list s) s)"



definition scale :: "real \<Rightarrow> complex list list \<Rightarrow> complex list list" where
  "scale c phase_field = map (map (\<lambda>z. of_real c * z)) phase_field"

definition squared_modulus :: "complex \<Rightarrow> real" where
  "squared_modulus z = (Re z)\<^sup>2 + (Im z)\<^sup>2"

definition valid_format :: "float_format \<Rightarrow> bool" where
  "valid_format F = (0 < smallest F \<and> 100 \<le> largest F)"

definition in_range :: "float_format \<Rightarrow> complex list list \<Rightarrow> bool" where
  "in_range F phase_field =
     (list_all (\<lambda>s. s = 0 \<or> 2 * smallest F \<le> s) (power_spectrum phase_field)
      \<and> 2 * sum_list (power_spectrum phase_field) \<le> largest F)"

section \<open>Calls that cannot return\<close>

lemma jax_random_normal_size:
  "jax_random_normal sampler [(''size'', a)] = Inl TypeError"
  by (simp add: jax_random_normal_def)

lemma holographic_decoherence_raises:
  "holographic_decoherence sampler phase_field decoherence_rate = Inl TypeError"
  by (simp add: holographic_decoherence_def jax_random_normal_size)

lemma jax_grad_Array: "jax_grad autodiff (Array a) = Inl TypeError"
  by (simp add: jax_grad_def)

text \<open>
  The library calls themselves can succeed: \<^verbatim>\<open>jax.grad\<close> on a callable, and
  \<^verbatim>\<open>jax.random.normal\<close> with a key and the keyword \<^verbatim>\<open>shape\<close>. The module makes
  neither of these calls.
\<close>

lemma jax_grad_Callable: "jax_grad autodiff (Callable f) = Inr (GradCallable (autodiff f))"
  by (simp add: jax_grad_def)

lemma jax_random_normal_key_shape:
  "jax_random_normal sampler [(''key'', KeyArg k), (''shape'', ShapeArg s)] = Inr (sampler k s)"
  by (simp add: jax_random_normal_def)

text \<open>
  C3. The claim is that every function of the module returns for a well-shaped
  input, \<^verbatim>\<open>compute_bohmian_velocity\<close> and \<^verbatim>\<open>holographic_decoherence\<close> in
  particular. In the code both raise \<^verbatim>\<open>TypeError\<close> on every input: the first
  hands an array to \<^verbatim>\<open>jax.grad\<close>, which wants a callable, the second calls
  \<^verbatim>\<open>jax.random.normal\<close> with the keyword \<^verbatim>\<open>size\<close> and without a key.
\<close>

theorem velocity_and_decoherence_never_return:
  "compute_bohmian_velocity autodiff phase_field mass hbar = Inl TypeError
   \<and> holographic_decoherence sampler phase_field decoherence_rate = Inl TypeError"
  by (simp add: compute_bohmian_velocity_def jax_grad_Array holographic_decoherence_raises)

text \<open>
  C4. The claim is that \<^verbatim>\<open>holographic_decoherence\<close> with a zero decoherence
  rate returns its input unchanged. In the code the call raises \<^verbatim>\<open>TypeError\<close>
  before the rate is used, so nothing is returned, the input included.
\<close>

theorem holographic_decoherence_zero_rate_raises:
  "holographic_decoherence sampler phase_field 0 = Inl TypeError
   \<and> holographic_decoherence sampler phase_field 0 \<noteq> Inr phase_field"
  by (simp add: holographic_decoherence_raises)

section \<open>The discrete Fourier transform\<close>


lemma cis_minus_pi: "cis (- pi) = -1"
  by (metis cis_cnj cis_pi complex_cnj_minus complex_cnj_one)

lemma dft_pair: "dft [a, b] = [a + b, a - b]"
  by (simp add: dft_def numeral_2_eq_2 cis_minus_pi)

lemma length_dft: "length (dft a) = length a"
  by (simp add: dft_def Let_def)

lemma dft_scale: "dft (map (\<lambda>z. c * z) a) = map (\<lambda>z. c * z) (dft a)"
proof -
  have "(\<Sum>j<length a. map (\<lambda>z. c * z) a ! j * cis (- (2 * pi * real j * real k / real (length a))))
        = c * (\<Sum>j<length a. a ! j * cis (- (2 * pi * real j * real k / real (length a))))" for k
  proof -
    have "(\<Sum>j<length a. map (\<lambda>z. c * z) a ! j * cis (- (2 * pi * real j * real k / real (length a))))
          = (\<Sum>j<length a. c * (a ! j * cis (- (2 * pi * real j * real k / real (length a)))))"
      by (rule sum.cong) (simp_all add: mult.assoc)
    then show ?thesis by (simp only: sum_distrib_left)
  qed
  then show ?thesis by (simp add: dft_def Let_def)
qed

section \<open>Entanglement entropy\<close>

lemma concat_map_map: "concat (map (map f) xss) = map f (concat xss)"
  by (induction xss) simp_all

lemma overflow_Finite: "\<bar>x\<bar> \<le> largest F \<Longrightarrow> overflow F x = Finite x"
  by (auto simp: overflow_def)

lemma power_spectrum_alt:
  "power_spectrum pf = map (\<lambda>z. (cmod z)\<^sup>2) (concat (fft pf))"
  by (simp add: power_spectrum_def concat_map_map)

lemma spectral_density_concat:
  "concat (spectral_density F pf) = map (\<lambda>z. ieee_square F (ieee_abs F z)) (concat (fft pf))"
  by (simp add: spectral_density_def concat_map_map)

lemma power_spectrum_nonneg: "x \<in> set (power_spectrum pf) \<Longrightarrow> 0 \<le> x"
  by (auto simp: power_spectrum_alt)

lemma member_le_sum_list_nonneg:
  fixes xs :: "real list"
  assumes "\<And>y. y \<in> set xs \<Longrightarrow> 0 \<le> y" and "x \<in> set xs"
  shows "x \<le> sum_list xs"
  using assms
proof (induction xs)
  case Nil
  then show ?case by simp
next
  case (Cons a xs)
  have nn: "0 \<le> sum_list xs" by (rule sum_list_nonneg) (simp add: Cons.prems(1))
  have a: "0 \<le> a" by (simp add: Cons.prems(1))
  show ?case
  proof (cases "x = a")
    case True
    then show ?thesis using nn by simp
  next
    case False
    then have "x \<in> set xs" using Cons.prems(2) by simp
    then have "x \<le> sum_list xs" using Cons.IH Cons.prems(1) by simp
    then show ?thesis using a by simp
  qed
qed

lemma square_exact:
  assumes F: "valid_format F"
    and u: "(cmod z)\<^sup>2 = 0 \<or> smallest F \<le> (cmod z)\<^sup>2"
    and o: "(cmod z)\<^sup>2 \<le> largest F"
  shows "ieee_square F (ieee_abs F z) = Finite ((cmod z)\<^sup>2)"
proof -
  have L: "100 \<le> largest F" and S: "0 < smallest F"
    using F by (simp_all add: valid_format_def)
  have "cmod z \<le> largest F"
  proof (cases "cmod z \<le> 1")
    case True
    then show ?thesis using L by simp
  next
    case False
    then have "cmod z * 1 \<le> cmod z * cmod z" by (intro mult_left_mono) simp_all
    then show ?thesis using o by (simp add: power2_eq_square)
  qed
  then have a: "ieee_abs F z = Finite (cmod z)"
    by (simp add: ieee_abs_def overflow_Finite)
  show ?thesis
  proof (cases "(cmod z)\<^sup>2 = 0")
    case True
    then have "z = 0" by simp
    then show ?thesis using S L by (simp add: ieee_abs_def overflow_def)
  next
    case False
    then have "smallest F \<le> cmod z * cmod z" using u by (simp add: power2_eq_square)
    moreover have "cmod z * cmod z \<le> largest F" using o by (simp add: power2_eq_square)
    ultimately show ?thesis by (simp add: a power2_eq_square)
  qed
qed

lemma in_range_sum:
  assumes "in_range F pf"
  shows "sum_list (power_spectrum pf) \<le> largest F"
proof -
  have "0 \<le> sum_list (power_spectrum pf)"
    by (rule sum_list_nonneg) (rule power_spectrum_nonneg)
  moreover have "2 * sum_list (power_spectrum pf) \<le> largest F"
    using assms by (simp add: in_range_def)
  ultimately show ?thesis by simp
qed

lemma in_range_entry:
  assumes "valid_format F" and "in_range F pf" and "z \<in> set (concat (fft pf))"
  shows "((cmod z)\<^sup>2 = 0 \<or> smallest F \<le> (cmod z)\<^sup>2) \<and> (cmod z)\<^sup>2 \<le> largest F"
proof -
  have S: "0 < smallest F" using assms(1) by (simp add: valid_format_def)
  have m: "(cmod z)\<^sup>2 \<in> set (power_spectrum pf)"
    using assms(3) by (auto simp: power_spectrum_alt)
  have "(cmod z)\<^sup>2 \<le> sum_list (power_spectrum pf)"
    by (rule member_le_sum_list_nonneg [OF power_spectrum_nonneg m])
  moreover have "sum_list (power_spectrum pf) \<le> largest F"
    using assms(2) by (rule in_range_sum)
  moreover have "(cmod z)\<^sup>2 = 0 \<or> 2 * smallest F \<le> (cmod z)\<^sup>2"
    using assms(2) m by (auto simp: in_range_def list_all_iff)
  then have "(cmod z)\<^sup>2 = 0 \<or> smallest F \<le> (cmod z)\<^sup>2"
    using S by auto
  ultimately show ?thesis by simp
qed

lemma spectral_density_exact:
  assumes "valid_format F" and "in_range F pf"
  shows "concat (spectral_density F pf) = map Finite (power_spectrum pf)"
proof -
  have "ieee_square F (ieee_abs F z) = Finite ((cmod z)\<^sup>2)" if "z \<in> set (concat (fft pf))" for z
    using in_range_entry [OF assms that] by (intro square_exact [OF assms(1)]) simp_all
  then show ?thesis
    by (simp add: spectral_density_concat power_spectrum_alt)
qed

lemma ieee_sum_exact:
  assumes "sum_list (map abs ts) \<le> largest F"
  shows "ieee_sum F (map Finite ts) = Finite (sum_list ts)"
  using assms
proof (induction ts)
  case Nil
  then show ?case by (simp add: ieee_sum_def)
next
  case (Cons t ts)
  have "0 \<le> sum_list (map abs ts)" by (rule sum_list_nonneg) auto
  then have "sum_list (map abs ts) \<le> largest F" using Cons.prems by simp
  then have ih: "ieee_sum F (map Finite ts) = Finite (sum_list ts)" by (rule Cons.IH)
  have "\<bar>sum_list ts\<bar> \<le> sum_list (map abs ts)" by (rule sum_list_abs)
  then have "\<bar>t + sum_list ts\<bar> \<le> largest F" using Cons.prems by simp
  then have "overflow F (t + sum_list ts) = Finite (t + sum_list ts)" by (rule overflow_Finite)
  then show ?case using ih by (simp add: ieee_sum_def)
qed

lemma ieee_sum_nonneg_exact:
  assumes "\<And>x. x \<in> set xs \<Longrightarrow> 0 \<le> x" and "sum_list xs \<le> largest F"
  shows "ieee_sum F (map Finite xs) = Finite (sum_list xs)"
proof -
  have "map abs xs = xs" using assms(1) by (induction xs) simp_all
  then show ?thesis using assms(2) by (intro ieee_sum_exact) simp
qed

lemma total_exact:
  assumes "valid_format F" and "in_range F pf"
  shows "ieee_sum F (concat (spectral_density F pf)) = Finite (sum_list (power_spectrum pf))"
proof -
  have "sum_list (power_spectrum pf) \<le> largest F" using assms(2) by (rule in_range_sum)
  then show ?thesis
    unfolding spectral_density_exact [OF assms]
    by (intro ieee_sum_nonneg_exact power_spectrum_nonneg)
qed

lemma probability_distribution_concat:
  "concat (probability_distribution F pf)
     = map (\<lambda>s. ieee_div F s (ieee_sum F (concat (spectral_density F pf))))
         (concat (spectral_density F pf))"
  by (simp add: probability_distribution_def Let_def concat_map_map)

lemma normalized_power_spectrum_range:
  assumes "sum_list (power_spectrum pf) \<noteq> 0" and "p \<in> set (normalized_power_spectrum pf)"
  shows "0 \<le> p \<and> p \<le> 1"
proof -
  let ?T = "sum_list (power_spectrum pf)"
  from assms(2) obtain s where s: "s \<in> set (power_spectrum pf)" and p: "p = s / ?T"
    by (auto simp: normalized_power_spectrum_def Let_def)
  have "0 \<le> s" using s by (rule power_spectrum_nonneg)
  moreover have "s \<le> ?T" by (rule member_le_sum_list_nonneg [OF power_spectrum_nonneg s])
  moreover have "0 < ?T"
    using assms(1) sum_list_nonneg [of "power_spectrum pf"] power_spectrum_nonneg [of _ pf]
    by (simp add: less_le)
  ultimately show ?thesis by (simp add: p)
qed

lemma sum_list_normalized_power_spectrum:
  assumes "sum_list (power_spectrum pf) \<noteq> 0"
  shows "sum_list (normalized_power_spectrum pf) = 1"
proof -
  have "sum_list (map (\<lambda>x. x / c) xs) = sum_list xs / c" for c :: real and xs
    by (induction xs) (simp_all add: add_divide_distrib)
  then show ?thesis using assms by (simp add: normalized_power_spectrum_def Let_def)
qed

lemma probability_distribution_exact:
  assumes "valid_format F" and "in_range F pf" and "sum_list (power_spectrum pf) \<noteq> 0"
  shows "concat (probability_distribution F pf) = map Finite (normalized_power_spectrum pf)"
proof -
  let ?T = "sum_list (power_spectrum pf)"
  have L: "100 \<le> largest F" using assms(1) by (simp add: valid_format_def)
  have "ieee_div F (Finite s) (Finite ?T) = Finite (s / ?T)" if "s \<in> set (power_spectrum pf)" for s
  proof -
    have "s / ?T \<in> set (normalized_power_spectrum pf)"
      using that by (auto simp: normalized_power_spectrum_def Let_def)
    from normalized_power_spectrum_range [OF assms(3) this]
    have "\<bar>s / ?T\<bar> \<le> largest F" using L by linarith
    then show ?thesis using assms(3) by (simp add: overflow_Finite)
  qed
  then have "map ((\<lambda>s. ieee_div F s (Finite ?T)) \<circ> Finite) (power_spectrum pf)
             = map (Finite \<circ> (\<lambda>x. x / ?T)) (power_spectrum pf)"
    by (intro map_cong [OF refl]) (simp only: o_apply)
  moreover have "ieee_sum F (map Finite (power_spectrum pf)) = Finite ?T"
    using total_exact [OF assms(1,2)] by (simp only: spectral_density_exact [OF assms(1,2)])
  ultimately show ?thesis
    by (simp only: probability_distribution_concat spectral_density_exact [OF assms(1,2)]
        normalized_power_spectrum_def Let_def map_map)
qed



lemma ln_guard_bounds:
  assumes "0 \<le> p" and "p \<le> 1"
  shows "\<bar>ln (p + 1 / 10 ^ 10)\<bar> \<le> (90::real)"
proof -
  let ?e = "1 / 10 ^ 10 :: real"
  have pos: "0 < p + ?e" using assms(1) by simp
  have "ln (p + ?e) \<le> p + ?e - 1" using pos by (rule ln_le_minus_one)
  then have up: "ln (p + ?e) \<le> 90" using assms(2) by simp
  have "ln (10::real) \<le> 10 - 1" by (rule ln_le_minus_one) simp
  moreover have "ln ((10::real) ^ 10) = real 10 * ln 10" by (rule ln_realpow)
  ultimately have "ln ((10::real) ^ 10) \<le> 90" by simp
  moreover have "ln ?e = - ln ((10::real) ^ 10)" by (simp add: ln_div)
  ultimately have "- 90 \<le> ln ?e" by simp
  moreover have "ln ?e \<le> ln (p + ?e)" using assms(1) by (intro ln_mono) simp_all
  ultimately show ?thesis using up by simp
qed

lemma term_exact:
  assumes "valid_format F" and "0 \<le> p" and "p \<le> 1"
  shows "ieee_mul F (Finite p) (ieee_log F (ieee_add F (Finite p) (Finite (1 / 10 ^ 10))))
           = Finite (p * ln (p + 1 / 10 ^ 10))"
proof -
  let ?e = "1 / 10 ^ 10 :: real"
  have L: "100 \<le> largest F" using assms(1) by (simp add: valid_format_def)
  have "\<bar>p + ?e\<bar> \<le> largest F" using assms(2,3) L by simp
  then have a: "ieee_add F (Finite p) (Finite ?e) = Finite (p + ?e)"
    by (simp add: overflow_Finite)
  have b: "\<bar>ln (p + ?e)\<bar> \<le> 90" using assms(2,3) by (rule ln_guard_bounds)
  then have "\<bar>ln (p + ?e)\<bar> \<le> largest F" using L by simp
  moreover have "0 < p + ?e" using assms(2) by simp
  ultimately have l: "ieee_log F (Finite (p + ?e)) = Finite (ln (p + ?e))"
    by (simp add: overflow_Finite)
  have "\<bar>p * ln (p + ?e)\<bar> \<le> 1 * 90"
    unfolding abs_mult using assms(2,3) b by (intro mult_mono) simp_all
  then have "\<bar>p * ln (p + ?e)\<bar> \<le> largest F" using L by simp
  then show ?thesis by (simp only: a l ieee_mul.simps overflow_Finite)
qed

lemma entropy_concat:
  "compute_entanglement_entropy F pf =
     ieee_neg (ieee_sum F (map (\<lambda>p. ieee_mul F p (ieee_log F (ieee_add F p (Finite (1 / 10 ^ 10)))))
                            (concat (probability_distribution F pf))))"
  by (simp add: compute_entanglement_entropy_def concat_map_map)

lemma entropy_exact:
  assumes "valid_format F" and "in_range F pf" and "sum_list (power_spectrum pf) \<noteq> 0"
  shows "compute_entanglement_entropy F pf
           = Finite (- sum_list (map (\<lambda>p. p * ln (p + 1 / 10 ^ 10)) (normalized_power_spectrum pf)))"
proof -
  let ?ps = "normalized_power_spectrum pf"
  let ?t = "\<lambda>p::real. p * ln (p + 1 / 10 ^ 10)"
  let ?g = "\<lambda>p. ieee_mul F p (ieee_log F (ieee_add F p (Finite (1 / 10 ^ 10))))"
  have L: "100 \<le> largest F" using assms(1) by (simp add: valid_format_def)
  have r: "0 \<le> p \<and> p \<le> 1" if "p \<in> set ?ps" for p
    using normalized_power_spectrum_range [OF assms(3) that] .
  have "map (?g \<circ> Finite) ?ps = map (Finite \<circ> ?t) ?ps"
  proof (intro map_cong [OF refl])
    fix p assume "p \<in> set ?ps"
    then have "0 \<le> p" "p \<le> 1" using r by simp_all
    then show "(?g \<circ> Finite) p = (Finite \<circ> ?t) p"
      using term_exact [OF assms(1)] by (simp only: o_apply)
  qed
  then have terms: "map ?g (concat (probability_distribution F pf)) = map Finite (map ?t ?ps)"
    by (simp only: probability_distribution_exact [OF assms] map_map)
  have "sum_list (map (\<lambda>p. \<bar>?t p\<bar>) ?ps) \<le> sum_list (map (\<lambda>p. 90 * p) ?ps)"
  proof (rule sum_list_mono)
    fix p assume "p \<in> set ?ps"
    then have p: "0 \<le> p" "p \<le> 1" using r by simp_all
    have "\<bar>p\<bar> * \<bar>ln (p + 1 / 10 ^ 10)\<bar> \<le> p * 90"
      using p ln_guard_bounds [OF p] by (intro mult_mono) simp_all
    then show "\<bar>?t p\<bar> \<le> 90 * p" by (simp add: abs_mult mult.commute)
  qed
  also have "\<dots> = 90 * sum_list ?ps" by (simp add: sum_list_const_mult)
  also have "\<dots> = 90" by (simp add: sum_list_normalized_power_spectrum [OF assms(3)])
  finally have "sum_list (map abs (map ?t ?ps)) \<le> largest F"
    using L by (simp add: o_def)
  then have "ieee_sum F (map Finite (map ?t ?ps)) = Finite (sum_list (map ?t ?ps))"
    by (rule ieee_sum_exact)
  then show ?thesis
    by (simp only: entropy_concat terms ieee_neg.simps)
qed

subsection \<open>Fields in \<open>float32\<close>\<close>

lemma valid_format_float32: "valid_format (float32 b)"
  by (simp add: valid_format_def float32_def)

lemma largest_float32: "largest (float32 b) = (2 - 1 / 2 ^ 23) * 2 ^ 127"
  by (simp add: float32_def)

lemma smallest_float32: "smallest (float32 b) = (if b then 1 / 2 ^ 126 else 1 / 2 ^ 149)"
  by (simp add: float32_def)

lemma power_spectrum_pair: "power_spectrum [[a, b]] = [(cmod (a + b))\<^sup>2, (cmod (a - b))\<^sup>2]"
  by (simp add: power_spectrum_def fft_def dft_pair)

lemma in_range_float32_1_1: "in_range (float32 b) [[1, 1]]"
  by (simp add: in_range_def power_spectrum_pair largest_float32 smallest_float32)


lemma spectral_density_float32_big:
  "spectral_density (float32 b) [[10 ^ 20, 10 ^ 20]] = [[PosInf, Finite 0]]"
  by (simp add: spectral_density_def fft_def dft_pair ieee_abs_def overflow_def
      largest_float32 smallest_float32 norm_mult norm_power)

lemma entropy_float32_big:
  "compute_entanglement_entropy (float32 b) [[10 ^ 20, 10 ^ 20]] = NaN"
  unfolding compute_entanglement_entropy_def probability_distribution_def Let_def
    spectral_density_float32_big
  by (simp add: ieee_sum_def overflow_def largest_float32)

lemma spectral_density_float32_small:
  "spectral_density (float32 b) [[1 / 10 ^ 30, 1 / 10 ^ 30]] = [[Finite 0, Finite 0]]"
  by (simp add: spectral_density_def fft_def dft_pair ieee_abs_def overflow_def
      largest_float32 smallest_float32 norm_divide norm_power)

lemma entropy_float32_small:
  "compute_entanglement_entropy (float32 b) [[1 / 10 ^ 30, 1 / 10 ^ 30]] = NaN"
  unfolding compute_entanglement_entropy_def probability_distribution_def Let_def
    spectral_density_float32_small
  by (simp add: ieee_sum_def overflow_def largest_float32)




lemma entropy_float32_1_1_finite:
  "is_finite (compute_entanglement_entropy (float32 b) [[1, 1]])"
proof -
  have "sum_list (power_spectrum [[1, 1]]) \<noteq> 0" by (simp add: power_spectrum_pair)
  from entropy_exact [OF valid_format_float32 in_range_float32_1_1 this]
  show ?thesis by simp
qed

subsection \<open>The entropy and the Shannon entropy\<close>




subsection \<open>Scaling\<close>

lemma fft_scale: "fft (scale c pf) = map (map (\<lambda>z. of_real c * z)) (fft pf)"
  by (simp add: fft_def scale_def dft_scale o_def)

lemma power_spectrum_scale:
  "power_spectrum (scale c pf) = map (\<lambda>s. c\<^sup>2 * s) (power_spectrum pf)"
  by (simp add: power_spectrum_alt fft_scale concat_map_map o_def norm_mult power_mult_distrib)

lemma sum_list_power_spectrum_scale:
  "sum_list (power_spectrum (scale c pf)) = c\<^sup>2 * sum_list (power_spectrum pf)"
  by (simp add: power_spectrum_scale sum_list_const_mult)

lemma normalized_power_spectrum_scale:
  assumes "c \<noteq> 0"
  shows "normalized_power_spectrum (scale c pf) = normalized_power_spectrum pf"
proof -
  have "c\<^sup>2 * x / (c\<^sup>2 * t) = x / t" for x t :: real
    using assms by simp
  then show ?thesis
    unfolding normalized_power_spectrum_def Let_def sum_list_power_spectrum_scale
    by (simp add: power_spectrum_scale o_def)
qed

text \<open>
  C10. The claim is that \<^verbatim>\<open>compute_entanglement_entropy(c * phase_field)\<close> equals
  \<^verbatim>\<open>compute_entanglement_entropy(phase_field)\<close> for every real \<open>c \<noteq> 0\<close> and every
  phase field whose power spectrum has a nonzero sum. What holds: the two are equal,
  and finite, when both the phase field and the scaled phase field are in the range
  of the format. The power spectrum and its sum both scale by \<open>c\<^sup>2\<close>, which the
  normalization cancels as long as neither overflows or underflows.
\<close>

theorem entropy_scale_invariant_in_range:
  assumes "valid_format F" and "c \<noteq> 0"
    and "sum_list (power_spectrum phase_field) \<noteq> 0"
    and "in_range F phase_field" and "in_range F (scale c phase_field)"
  shows "compute_entanglement_entropy F (scale c phase_field)
           = compute_entanglement_entropy F phase_field
         \<and> is_finite (compute_entanglement_entropy F phase_field)"
proof -
  have "sum_list (power_spectrum (scale c phase_field)) \<noteq> 0"
    using assms(2,3) by (simp add: sum_list_power_spectrum_scale)
  from entropy_exact [OF assms(1,5) this] entropy_exact [OF assms(1,4,3)]
  show ?thesis by (simp add: normalized_power_spectrum_scale [OF assms(2)])
qed

lemma in_range_float32_3_3: "in_range (float32 b) (scale 3 [[1, 1]])"
  by (simp add: in_range_def power_spectrum_scale power_spectrum_pair
      largest_float32 smallest_float32)

theorem entropy_scale_invariant_in_range_witness:
  "valid_format (float32 True) \<and> (3::real) \<noteq> 0 \<and> sum_list (power_spectrum [[1, 1]]) \<noteq> 0
   \<and> in_range (float32 True) [[1, 1]] \<and> in_range (float32 True) (scale 3 [[1, 1]])
   \<and> compute_entanglement_entropy (float32 True) [[3, 3]]
       = compute_entanglement_entropy (float32 True) [[1, 1]]
   \<and> is_finite (compute_entanglement_entropy (float32 True) [[1, 1]])"
proof -
  have c: "(3::real) \<noteq> 0" by simp
  have s: "sum_list (power_spectrum [[1, 1]]) \<noteq> 0" by (simp add: power_spectrum_pair)
  show ?thesis
    using valid_format_float32 c s in_range_float32_1_1 in_range_float32_3_3
      entropy_scale_invariant_in_range
        [OF valid_format_float32 c s in_range_float32_1_1 in_range_float32_3_3]
    by (simp add: scale_def)
qed

text \<open>
  In \<open>float32\<close>, under either convention for subnormal numbers, the field
  \<open>[1, 1]\<close> has the power spectrum \<open>[4, 0]\<close> and a finite
  entropy. Scaled by \<open>c = 1e20\<close> its power spectrum overflows, scaled by
  \<open>c = 1e-30\<close> its power spectrum underflows to zero; the entropy of either
  scaled field is a NaN.
\<close>

theorem entropy_scale_counterexample:
  "(10 ^ 20 :: real) \<noteq> 0 \<and> (1 / 10 ^ 30 :: real) \<noteq> 0
   \<and> sum_list (power_spectrum [[1, 1]]) = 4
   \<and> is_finite (compute_entanglement_entropy (float32 True) [[1, 1]])
   \<and> is_finite (compute_entanglement_entropy (float32 False) [[1, 1]])
   \<and> compute_entanglement_entropy (float32 True) (scale (10 ^ 20) [[1, 1]]) = NaN
   \<and> compute_entanglement_entropy (float32 False) (scale (10 ^ 20) [[1, 1]]) = NaN
   \<and> compute_entanglement_entropy (float32 True) (scale (1 / 10 ^ 30) [[1, 1]]) = NaN
   \<and> compute_entanglement_entropy (float32 False) (scale (1 / 10 ^ 30) [[1, 1]]) = NaN"
  using entropy_float32_big entropy_float32_small entropy_float32_1_1_finite
  by (simp add: scale_def power_spectrum_pair)

subsection \<open>Fields of zeros\<close>

lemma dft_zero:
  assumes "\<forall>z \<in> set a. z = 0"
  shows "\<forall>z \<in> set (dft a). z = 0"
proof -
  have "a ! j = 0" if "j < length a" for j using assms that by simp
  then show ?thesis by (simp add: dft_def Let_def)
qed

lemma fft_zero:
  assumes "\<forall>z \<in> set (concat pf). z = 0"
  shows "\<forall>z \<in> set (concat (fft pf)). z = 0"
  using assms dft_zero by (auto simp: fft_def)

lemma length_concat_fft: "length (concat (fft pf)) = length (concat pf)"
  by (induction pf) (simp_all add: fft_def length_dft)

lemma ieee_sum_zeros:
  assumes "valid_format F"
  shows "ieee_sum F (map (\<lambda>z. Finite 0) zs) = Finite 0"
  using assms by (induction zs) (simp_all add: ieee_sum_def overflow_def valid_format_def)

lemma spectral_density_zero:
  assumes "valid_format F" and "\<forall>z \<in> set (concat pf). z = 0"
  shows "concat (spectral_density F pf) = map (\<lambda>z. Finite 0) (concat (fft pf))"
proof -
  have "ieee_square F (ieee_abs F 0) = Finite 0"
    using assms(1) by (simp add: ieee_abs_def overflow_def valid_format_def)
  moreover have "z = 0" if "z \<in> set (concat (fft pf))" for z
    using fft_zero [OF assms(2)] that by blast
  ultimately have "ieee_square F (ieee_abs F z) = Finite 0" if "z \<in> set (concat (fft pf))" for z
    using that by metis
  then show ?thesis
    unfolding spectral_density_concat by (intro map_cong [OF refl])
qed

lemma probability_distribution_zero:
  assumes "valid_format F" and "\<forall>z \<in> set (concat pf). z = 0"
  shows "concat (probability_distribution F pf) = map (\<lambda>z. NaN) (concat (fft pf))"
  by (simp add: probability_distribution_concat spectral_density_zero [OF assms]
      ieee_sum_zeros [OF assms(1)])

lemma ieee_sum_NaN: "xs \<noteq> [] \<Longrightarrow> ieee_sum F (map (\<lambda>z. NaN) xs) = NaN"
  by (cases xs) (simp_all add: ieee_sum_def)

lemma entropy_zero_field:
  assumes "valid_format F" and "concat pf \<noteq> []" and "\<forall>z \<in> set (concat pf). z = 0"
  shows "concat (probability_distribution F pf) \<noteq> []"
    and "\<forall>p \<in> set (concat (probability_distribution F pf)).
           p = NaN \<and> ieee_log F (ieee_add F p (Finite (1 / 10 ^ 10))) = NaN"
    and "compute_entanglement_entropy F pf = NaN"
proof -
  have ne: "concat (fft pf) \<noteq> []"
    using assms(2) length_concat_fft [of pf] by (metis length_0_conv)
  show "concat (probability_distribution F pf) \<noteq> []"
    using ne by (simp add: probability_distribution_zero [OF assms(1,3)])
  show "\<forall>p \<in> set (concat (probability_distribution F pf)).
           p = NaN \<and> ieee_log F (ieee_add F p (Finite (1 / 10 ^ 10))) = NaN"
    by (simp add: probability_distribution_zero [OF assms(1,3)])
  show "compute_entanglement_entropy F pf = NaN"
    using ieee_sum_NaN [OF ne, of F]
    by (simp add: entropy_concat probability_distribution_zero [OF assms(1,3)] o_def)
qed

text \<open>
  C6. For some phase field the logarithm in \<^verbatim>\<open>compute_entanglement_entropy\<close>
  yields a value that is not finite, and that value reaches the returned entropy:
  nothing in the function catches it or puts another value in its place. The field
  \<open>[0]\<close> is one, and so is every nonempty field of zeros (\<open>entropy_zero_field\<close>): its
  power spectrum sums to zero, every entry of the normalized spectrum is the NaN
  \<open>0 / 0\<close>, the logarithm of \<open>NaN + 1e-10\<close> is a NaN and the entropy is a NaN.
\<close>

theorem entropy_log_nan_reaches_result:
  assumes "valid_format F"
  shows "\<exists>phase_field.
           (\<exists>p \<in> set (concat (probability_distribution F phase_field)).
              ieee_log F (ieee_add F p (Finite (1 / 10 ^ 10))) = NaN)
           \<and> compute_entanglement_entropy F phase_field = NaN"
proof -
  have ne: "concat [[0::complex]] \<noteq> []" and z: "\<forall>z \<in> set (concat [[0::complex]]). z = 0"
    by simp_all
  from entropy_zero_field [OF assms ne z] show ?thesis
    by (metis last_in_set)
qed

theorem entropy_log_nan_reaches_result_witness:
  "valid_format (float32 True)
   \<and> (\<exists>phase_field.
         (\<exists>p \<in> set (concat (probability_distribution (float32 True) phase_field)).
            ieee_log (float32 True) (ieee_add (float32 True) p (Finite (1 / 10 ^ 10))) = NaN)
         \<and> compute_entanglement_entropy (float32 True) phase_field = NaN)"
  using valid_format_float32 entropy_log_nan_reaches_result [OF valid_format_float32]
  by simp

section \<open>Macroscopic quantum potential\<close>

lemma gradient_short: "length a < 2 \<Longrightarrow> gradient a = Inl ValueError"
  by (simp add: gradient_def)

lemma gradient_ok:
  assumes "2 \<le> length a"
  shows "\<exists>g. gradient a = Inr g \<and> length g = length a"
  using assms by (simp add: gradient_def Let_def)

lemma compute_mqp_short: "length d < 2 \<Longrightarrow> compute_mqp d hbar mass = Inl ValueError"
  by (simp add: compute_mqp_def gradient_short)

lemma compute_mqp_ok:
  assumes "2 \<le> length d"
  shows "\<exists>g lap. gradient d = Inr g \<and> gradient g = Inr lap \<and> length lap = length d
           \<and> compute_mqp d hbar mass
               = Inr (map2 (\<lambda>l x. fmul (fneg (fdiv (hbar\<^sup>2) (2 * mass))) (fdiv l x)) lap d)"
proof -
  from gradient_ok [OF assms] obtain g where g: "gradient d = Inr g" "length g = length d"
    by blast
  then have "2 \<le> length g" using assms by simp
  from gradient_ok [OF this] obtain lap where lap: "gradient g = Inr lap" "length lap = length g"
    by blast
  show ?thesis
    using g lap by (simp add: compute_mqp_def)
qed

text \<open>
  C8. For every one-dimensional density field without a zero entry and all positive
  \<open>hbar\<close> and \<open>mass\<close>, \<^verbatim>\<open>compute_mqp\<close> is
  \<open>- (hbar\<^sup>2 / (2 * mass)) * gradient (gradient density_field) / density_field\<close>
  elementwise, a finite number at every position. The library's gradient is defined
  for two elements or more; on a shorter field it raises \<^verbatim>\<open>ValueError\<close>, and so
  does \<^verbatim>\<open>compute_mqp\<close>.
\<close>

theorem compute_mqp_formula:
  assumes "0 \<notin> set density_field" and "0 < hbar" and "0 < mass"
  shows "(length density_field < 2 \<longrightarrow>
            gradient density_field = Inl ValueError
            \<and> compute_mqp density_field hbar mass = Inl ValueError)
         \<and> (2 \<le> length density_field \<longrightarrow>
              (\<exists>g laplacian.
                 gradient density_field = Inr g \<and> gradient g = Inr laplacian
                 \<and> length laplacian = length density_field
                 \<and> compute_mqp density_field hbar mass
                     = Inr (map2 (\<lambda>l d. Some (- (hbar\<^sup>2 / (2 * mass)) * (l / d)))
                              laplacian density_field)))"
proof (intro conjI impI)
  assume "length density_field < 2"
  then show "gradient density_field = Inl ValueError"
    by (rule gradient_short)
next
  assume "length density_field < 2"
  then show "compute_mqp density_field hbar mass = Inl ValueError"
    by (rule compute_mqp_short)
next
  assume "2 \<le> length density_field"
  from compute_mqp_ok [OF this, of hbar mass] obtain g laplacian where
    g: "gradient density_field = Inr g" "gradient g = Inr laplacian"
      "length laplacian = length density_field"
    and r: "compute_mqp density_field hbar mass
              = Inr (map2 (\<lambda>l x. fmul (fneg (fdiv (hbar\<^sup>2) (2 * mass))) (fdiv l x))
                       laplacian density_field)"
    by blast
  have "fmul (fneg (fdiv (hbar\<^sup>2) (2 * mass))) (fdiv l x) = Some (- (hbar\<^sup>2 / (2 * mass)) * (l / x))"
    if "(l, x) \<in> set (zip laplacian density_field)" for l x
  proof -
    have "x \<in> set density_field" using that by (rule set_zip_rightD)
    then have "x \<noteq> 0" using assms(1) by auto
    then show ?thesis using assms(3) by (simp add: fmul_def fneg_def fdiv_def)
  qed
  then have "map2 (\<lambda>l x. fmul (fneg (fdiv (hbar\<^sup>2) (2 * mass))) (fdiv l x)) laplacian density_field
             = map2 (\<lambda>l d. Some (- (hbar\<^sup>2 / (2 * mass)) * (l / d))) laplacian density_field"
    by auto
  with g r show "\<exists>g laplacian.
                 gradient density_field = Inr g \<and> gradient g = Inr laplacian
                 \<and> length laplacian = length density_field
                 \<and> compute_mqp density_field hbar mass
                     = Inr (map2 (\<lambda>l d. Some (- (hbar\<^sup>2 / (2 * mass)) * (l / d)))
                              laplacian density_field)"
    by simp
qed

lemma gradient_1_2_4: "gradient [1, 2, 4] = Inr [1, 3 / 2, 2]"
  by (simp add: gradient_def numeral_3_eq_3)

lemma gradient_1_32_2: "gradient [1, 3 / 2, 2] = Inr [1 / 2, 1 / 2, 1 / 2]"
  by (simp add: gradient_def numeral_3_eq_3)

theorem compute_mqp_formula_witness:
  "0 \<notin> set [1, 2, 4 :: real] \<and> (0::real) < 1 \<and> (0::real) < 2
   \<and> 2 \<le> length [1, 2, 4 :: real]
   \<and> compute_mqp [1, 2, 4] 1 2 = Inr [Some (- (1 / 8)), Some (- (1 / 16)), Some (- (1 / 32))]
   \<and> gradient [] = Inl ValueError \<and> compute_mqp [] 1 2 = Inl ValueError"
proof -
  have h: "0 \<notin> set [1, 2, 4 :: real]" by simp
  have e: "0 \<notin> set ([] :: real list)" by simp
  have p: "(0::real) < 1" "(0::real) < 2" by simp_all
  show ?thesis
    using compute_mqp_formula [OF h p] compute_mqp_formula [OF e p]
    by (simp add: gradient_1_2_4 gradient_1_32_2)
qed

text \<open>
  C7. The claim is that for every density field with a zero entry
  \<^verbatim>\<open>compute_mqp\<close> performs the division \<^verbatim>\<open>laplacian / density_field\<close> and returns
  what the array library produces. What holds: a one-dimensional density field of two
  elements or more with a zero entry gets its array back, of the length of the input,
  with a value that is not finite at every position where the density is zero and with
  \<open>- (hbar\<^sup>2 / (2 * mass)) * laplacian / density_field\<close> at every other position (for a
  mass that is not zero), \<open>laplacian\<close> being the gradient of the gradient. A field of
  fewer than two elements gets no division and no result: the library's gradient
  raises \<^verbatim>\<open>ValueError\<close>. No error is caught either way.
\<close>

theorem compute_mqp_division_by_zero:
  assumes "0 \<in> set density_field"
  shows "(length density_field < 2 \<longrightarrow> compute_mqp density_field hbar mass = Inl ValueError)
         \<and> (2 \<le> length density_field \<longrightarrow>
              (\<exists>g laplacian q.
                 gradient density_field = Inr g \<and> gradient g = Inr laplacian
                 \<and> length laplacian = length density_field
                 \<and> compute_mqp density_field hbar mass = Inr q
                 \<and> length q = length density_field
                 \<and> (\<forall>i < length density_field. density_field ! i = 0 \<longrightarrow> q ! i = None)
                 \<and> (\<forall>i < length density_field. density_field ! i \<noteq> 0 \<longrightarrow> mass \<noteq> 0 \<longrightarrow>
                       q ! i = Some (- (hbar\<^sup>2 / (2 * mass))
                                       * (laplacian ! i / density_field ! i)))))"
proof (intro conjI impI)
  assume "length density_field < 2"
  then show "compute_mqp density_field hbar mass = Inl ValueError"
    by (rule compute_mqp_short)
next
  assume "2 \<le> length density_field"
  from compute_mqp_ok [OF this, of hbar mass] obtain g laplacian where
    g: "gradient density_field = Inr g" "gradient g = Inr laplacian"
      "length laplacian = length density_field"
    and r: "compute_mqp density_field hbar mass
              = Inr (map2 (\<lambda>l x. fmul (fneg (fdiv (hbar\<^sup>2) (2 * mass))) (fdiv l x))
                       laplacian density_field)"
    by blast
  let ?q = "map2 (\<lambda>l x. fmul (fneg (fdiv (hbar\<^sup>2) (2 * mass))) (fdiv l x)) laplacian density_field"
  have len: "length ?q = length density_field" using g(3) by simp
  have zero: "?q ! i = None" if "i < length density_field" "density_field ! i = 0" for i
    using that g(3) by (simp add: fdiv_def fmul_def split: option.splits)
  have nonzero: "?q ! i = Some (- (hbar\<^sup>2 / (2 * mass)) * (laplacian ! i / density_field ! i))"
    if "i < length density_field" "density_field ! i \<noteq> 0" "mass \<noteq> 0" for i
    using that g(3) by (simp add: fdiv_def fmul_def fneg_def)
  show "\<exists>g laplacian q.
          gradient density_field = Inr g \<and> gradient g = Inr laplacian
          \<and> length laplacian = length density_field
          \<and> compute_mqp density_field hbar mass = Inr q
          \<and> length q = length density_field
          \<and> (\<forall>i < length density_field. density_field ! i = 0 \<longrightarrow> q ! i = None)
          \<and> (\<forall>i < length density_field. density_field ! i \<noteq> 0 \<longrightarrow> mass \<noteq> 0 \<longrightarrow>
                q ! i = Some (- (hbar\<^sup>2 / (2 * mass)) * (laplacian ! i / density_field ! i)))"
    using g r len zero nonzero by blast
qed

lemma gradient_0_1_4: "gradient [0, 1, 4] = Inr [1, 2, 3]"
  by (simp add: gradient_def numeral_3_eq_3)

lemma gradient_1_2_3: "gradient [1, 2, 3] = Inr [1, 1, 1]"
  by (simp add: gradient_def numeral_3_eq_3)

lemma compute_mqp_0_1_4: "compute_mqp [0, 1, 4] 1 1 = Inr [None, Some (- (1 / 2)), Some (- (1 / 8))]"
  by (simp add: compute_mqp_def gradient_0_1_4 gradient_1_2_3 fdiv_def fmul_def fneg_def)

theorem compute_mqp_division_by_zero_witness:
  "0 \<in> set [0, 1, 4 :: real] \<and> 2 \<le> length [0, 1, 4 :: real]
   \<and> gradient [0, 1, 4] = Inr [1, 2, 3] \<and> gradient [1, 2, 3] = Inr [1, 1, 1]
   \<and> compute_mqp [0, 1, 4] 1 1 = Inr [None, Some (- (1 / 2)), Some (- (1 / 8))]
   \<and> 0 \<in> set [0 :: real] \<and> length [0 :: real] < 2
   \<and> compute_mqp [0] 1 1 = Inl ValueError"
proof -
  have a: "0 \<in> set [0, 1, 4 :: real]" by simp
  have b: "0 \<in> set [0 :: real]" by simp
  show ?thesis
    using compute_mqp_division_by_zero [OF a, of 1 1] compute_mqp_division_by_zero [OF b, of 1 1]
    by (simp add: gradient_0_1_4 gradient_1_2_3 compute_mqp_0_1_4)
qed

text \<open>
  The density field \<open>[0]\<close> has a zero entry, and the call raises \<^verbatim>\<open>ValueError\<close>.
\<close>

theorem compute_mqp_division_counterexample:
  "0 \<in> set [0 :: real] \<and> compute_mqp [0] 1 1 = Inl ValueError"
  by (simp add: compute_mqp_short)

section \<open>Quantum foam\<close>

lemma cis_period_sum:
  fixes j m n :: nat
  assumes "j < n" "m < n"
  shows "(\<Sum>k<n. cis (2 * pi * real k * (real m - real j) / real n))
           = (if j = m then of_nat n else 0)"
proof (cases "j = m")
  case True
  then show ?thesis by simp
next
  case False
  define t where "t = 2 * pi * (real m - real j) / real n"
  define w where "w = cis t"
  have n: "0 < n" using assms by simp
  have "w \<noteq> 1"
  proof
    assume "w = 1"
    then have "cos t = 1" by (simp add: w_def complex_eq_iff)
    then obtain i :: int where i: "t = of_int i * 2 * pi"
      unfolding cos_one_2pi_int by blast
    then have "(2 * pi) * (real m - real j) = (2 * pi) * (of_int i * real n)"
      using n by (simp add: t_def field_simps)
    then have "real m - real j = of_int i * real n"
      by (simp only: mult_cancel_left) simp
    then have "of_int (int m - int j) = (of_int (i * int n) :: real)"
      by simp
    then have e: "int m - int j = i * int n"
      by (simp only: of_int_eq_iff)
    have "\<bar>int m - int j\<bar> < int n" using assms by linarith
    then have "\<bar>i\<bar> * int n < 1 * int n" unfolding e by (simp add: abs_mult)
    then have "\<bar>i\<bar> < 1" using n by (simp only: mult_less_cancel_right)
    then have "i = 0" by simp
    with e show False using False by simp
  qed
  have "real m - real j \<in> \<int>" by (intro Ints_diff Ints_of_nat)
  then have "cis (2 * pi * (real m - real j)) = 1" by (rule cis_multiple_2pi)
  moreover have "real n * t = 2 * pi * (real m - real j)"
    using n by (simp add: t_def)
  ultimately have wn: "w ^ n = 1" by (simp add: w_def DeMoivre)
  have "(\<Sum>k<n. cis (2 * pi * real k * (real m - real j) / real n)) = (\<Sum>k<n. w ^ k)"
    by (rule sum.cong) (simp_all add: w_def t_def DeMoivre mult_ac)
  also have "\<dots> = (w ^ n - 1) / (w - 1)"
    using \<open>w \<noteq> 1\<close> by (rule geometric_sum)
  also have "\<dots> = 0" by (simp add: wn)
  finally show ?thesis using False by simp
qed

lemma dft_nth:
  "k < length a \<Longrightarrow>
     dft a ! k = (\<Sum>j<length a. a ! j * cis (- (2 * pi * real j * real k / real (length a))))"
  by (simp add: dft_def Let_def)

lemma idft_dft_nth:
  assumes "m < length a"
  shows "(\<Sum>k<length a. dft a ! k * cis (2 * pi * real m * real k / real (length a))) / of_nat (length a)
           = a ! m"
proof -
  let ?n = "length a"
  have n: "0 < ?n" using assms by linarith
  have "(\<Sum>k<?n. dft a ! k * cis (2 * pi * real m * real k / real ?n))
        = (\<Sum>k<?n. \<Sum>j<?n. a ! j * cis (2 * pi * real k * (real m - real j) / real ?n))"
  proof (rule sum.cong)
    fix k assume "k \<in> {..<?n}"
    then have k: "k < ?n" by simp
    have "dft a ! k * cis (2 * pi * real m * real k / real ?n)
          = (\<Sum>j<?n. a ! j * cis (- (2 * pi * real j * real k / real ?n))
                         * cis (2 * pi * real m * real k / real ?n))"
      by (simp only: dft_nth [OF k] sum_distrib_right)
    also have "\<dots> = (\<Sum>j<?n. a ! j * cis (2 * pi * real k * (real m - real j) / real ?n))"
    proof (rule sum.cong)
      fix j
      have "- (2 * pi * real j * real k / real ?n) + 2 * pi * real m * real k / real ?n
            = 2 * pi * real k * (real m - real j) / real ?n"
        by (simp add: right_diff_distrib diff_divide_distrib mult_ac)
      then show "a ! j * cis (- (2 * pi * real j * real k / real ?n))
                   * cis (2 * pi * real m * real k / real ?n)
                 = a ! j * cis (2 * pi * real k * (real m - real j) / real ?n)"
        by (simp only: mult.assoc cis_mult)
    qed simp
    finally show "dft a ! k * cis (2 * pi * real m * real k / real ?n)
          = (\<Sum>j<?n. a ! j * cis (2 * pi * real k * (real m - real j) / real ?n))" .
  qed simp
  also have "\<dots> = (\<Sum>j<?n. \<Sum>k<?n. a ! j * cis (2 * pi * real k * (real m - real j) / real ?n))"
    by (rule sum.swap)
  also have "\<dots> = (\<Sum>j<?n. a ! j * (if j = m then of_nat ?n else 0))"
  proof (rule sum.cong)
    fix j assume "j \<in> {..<?n}"
    then have "j < ?n" by simp
    from cis_period_sum [OF this assms]
    show "(\<Sum>k<?n. a ! j * cis (2 * pi * real k * (real m - real j) / real ?n))
            = a ! j * (if j = m then of_nat ?n else 0)"
      by (simp only: sum_distrib_left [symmetric])
  qed simp
  also have "\<dots> = a ! m * of_nat ?n"
    using assms by (simp add: sum.delta' if_distrib [of "\<lambda>x. _ * x"] cong: if_cong)
  finally show ?thesis using n by simp
qed

lemma idft_dft: "idft (dft a) = a"
proof (rule nth_equalityI)
  show "length (idft (dft a)) = length a"
    by (simp add: idft_def Let_def length_dft)
next
  fix m assume "m < length (idft (dft a))"
  then have m: "m < length a" by (simp add: idft_def Let_def length_dft)
  then show "idft (dft a) ! m = a ! m"
    using idft_dft_nth [OF m] by (simp add: idft_def Let_def length_dft)
qed

lemma ifft_fft: "ifft (fft a) = a"
  by (simp add: ifft_def fft_def idft_dft o_def)

lemma idft_nth:
  "m < length a \<Longrightarrow>
     idft a ! m = (\<Sum>k<length a. a ! k * cis (2 * pi * real m * real k / real (length a)))
                    / of_nat (length a)"
  by (simp add: idft_def Let_def)

lemma length_idft: "length (idft a) = length a"
  by (simp add: idft_def Let_def)

lemma dft_idft_nth:
  assumes "k < length a"
  shows "(\<Sum>j<length a. idft a ! j * cis (- (2 * pi * real j * real k / real (length a)))) = a ! k"
proof -
  let ?n = "length a"
  have n: "0 < ?n" using assms by linarith
  have "(\<Sum>j<?n. idft a ! j * cis (- (2 * pi * real j * real k / real ?n)))
        = (\<Sum>j<?n. \<Sum>l<?n. a ! l * cis (2 * pi * real j * (real l - real k) / real ?n) / of_nat ?n)"
  proof (rule sum.cong)
    fix j assume "j \<in> {..<?n}"
    then have j: "j < ?n" by simp
    have "idft a ! j * cis (- (2 * pi * real j * real k / real ?n))
          = (\<Sum>l<?n. a ! l * cis (2 * pi * real j * real l / real ?n)
                         * cis (- (2 * pi * real j * real k / real ?n)) / of_nat ?n)"
      by (simp only: idft_nth [OF j] sum_distrib_right sum_divide_distrib times_divide_eq_left)
    also have "\<dots> = (\<Sum>l<?n. a ! l * cis (2 * pi * real j * (real l - real k) / real ?n) / of_nat ?n)"
    proof (rule sum.cong)
      fix l
      have "2 * pi * real j * real l / real ?n + - (2 * pi * real j * real k / real ?n)
            = 2 * pi * real j * (real l - real k) / real ?n"
        by (simp add: right_diff_distrib diff_divide_distrib mult_ac)
      then show "a ! l * cis (2 * pi * real j * real l / real ?n)
                   * cis (- (2 * pi * real j * real k / real ?n)) / of_nat ?n
                 = a ! l * cis (2 * pi * real j * (real l - real k) / real ?n) / of_nat ?n"
        by (simp only: mult.assoc cis_mult)
    qed simp
    finally show "idft a ! j * cis (- (2 * pi * real j * real k / real ?n))
          = (\<Sum>l<?n. a ! l * cis (2 * pi * real j * (real l - real k) / real ?n) / of_nat ?n)" .
  qed simp
  also have "\<dots> = (\<Sum>l<?n. \<Sum>j<?n. a ! l * cis (2 * pi * real j * (real l - real k) / real ?n) / of_nat ?n)"
    by (rule sum.swap)
  also have "\<dots> = (\<Sum>l<?n. a ! l * (if k = l then of_nat ?n else 0) / of_nat ?n)"
  proof (rule sum.cong)
    fix l assume "l \<in> {..<?n}"
    then have "l < ?n" by simp
    from cis_period_sum [OF assms this]
    show "(\<Sum>j<?n. a ! l * cis (2 * pi * real j * (real l - real k) / real ?n) / of_nat ?n)
            = a ! l * (if k = l then of_nat ?n else 0) / of_nat ?n"
      by (simp only: sum_distrib_left [symmetric] sum_divide_distrib [symmetric])
  qed simp
  also have "\<dots> = a ! k"
    using assms n by (simp add: sum.delta if_distrib [of "\<lambda>x. _ * x / _"] cong: if_cong)
  finally show ?thesis .
qed

lemma dft_idft: "dft (idft a) = a"
proof (rule nth_equalityI)
  show "length (dft (idft a)) = length a"
    by (simp add: length_dft length_idft)
next
  fix k assume "k < length (dft (idft a))"
  then have k: "k < length a" by (simp add: length_dft length_idft)
  then show "dft (idft a) ! k = a ! k"
    using dft_idft_nth [OF k] by (simp add: dft_nth length_idft)
qed

lemma fft_ifft: "fft (ifft a) = a"
  by (simp add: ifft_def fft_def dft_idft o_def)

text \<open>
  C2. For every phase field, \<^verbatim>\<open>compute_quantum_foam\<close> is the elementwise squared
  modulus of the inverse Fourier transform of the field: of \<open>ifft phase_field\<close>, the
  array whose Fourier transform is the field, \<open>ifft\<close> undoing \<open>fft\<close> and
  \<open>fft\<close> undoing \<open>ifft\<close>.
\<close>

theorem compute_quantum_foam_formula:
  "compute_quantum_foam phase_field = map (map squared_modulus) (ifft phase_field)
   \<and> fft (ifft phase_field) = phase_field
   \<and> ifft (fft phase_field) = phase_field"
  by (simp add: compute_quantum_foam_def squared_modulus_def cmod_power2 fft_ifft ifft_fft)





end
